theory Spec2Isabelle
  imports Main
begin

section \<open>Values carried by frames\<close>

text \<open>
  The value \<^verbatim>\<open>JSON.parse\<close> returns, as the handlers see it. Arrays and objects carry
  the identity of the JavaScript object (a fresh one for every parse), because
  \<^verbatim>\<open>===\<close> compares them by reference. \<open>JUndefined\<close> is what reading an absent
  property gives. Numbers are only tested for zero and compared, so \<open>int\<close> stands for them.
\<close>

datatype jsval =
    JUndefined
  | JNull
  | JBool bool
  | JNum int
  | JStr string
  | JArr nat "jsval list"
  | JObj nat "(string \<times> jsval) list"

text \<open>JavaScript truthiness, as used by \<^verbatim>\<open>||\<close>, \<^verbatim>\<open>!\<close>, \<^verbatim>\<open>!!\<close> and \<^verbatim>\<open>if\<close>.\<close>

fun truthy :: "jsval \<Rightarrow> bool" where
  "truthy JUndefined = False"
| "truthy JNull = False"
| "truthy (JBool b) = b"
| "truthy (JNum n) = (n \<noteq> 0)"
| "truthy (JStr s) = (s \<noteq> [])"
| "truthy (JArr r xs) = True"
| "truthy (JObj r kvs) = True"

text \<open>
  Strict equality \<^verbatim>\<open>===\<close>: by value on primitives, by identity on arrays and objects.
  JSON has no NaN, so every value a frame can carry is equal to itself.
\<close>

fun strict_eq :: "jsval \<Rightarrow> jsval \<Rightarrow> bool" where
  "strict_eq (JArr r xs) (JArr r' ys) = (r = r')"
| "strict_eq (JObj r kvs) (JObj r' kvs') = (r = r')"
| "strict_eq a b = (a = b)"

text \<open>\<^verbatim>\<open>typeof v === 'string'\<close>.\<close>

fun is_string :: "jsval \<Rightarrow> bool" where
  "is_string (JStr s) = True"
| "is_string v = False"

text \<open>Reading a property of \<^verbatim>\<open>null\<close> or \<^verbatim>\<open>undefined\<close> throws a TypeError.\<close>

fun nullish :: "jsval \<Rightarrow> bool" where
  "nullish JUndefined = True"
| "nullish JNull = True"
| "nullish v = False"

text \<open>
  \<^verbatim>\<open>obj.k\<close> on a value that is not nullish, for the property names the handlers read
  (\<^verbatim>\<open>type\<close>, \<^verbatim>\<open>room\<close>, \<^verbatim>\<open>payload\<close>, \<^verbatim>\<open>typing\<close>): an object gives its own
  property or \<^verbatim>\<open>undefined\<close>; primitives and arrays have none of these names.
\<close>

fun get_prop :: "jsval \<Rightarrow> string \<Rightarrow> jsval" where
  "get_prop (JObj r kvs) k = (case map_of kvs k of None \<Rightarrow> JUndefined | Some v \<Rightarrow> v)"
| "get_prop v k = JUndefined"

section \<open>Server state\<close>

text \<open>A connection is the identity of a \<^verbatim>\<open>ws\<close> object.\<close>

type_synonym cid = nat

text \<open>
  What \<^verbatim>\<open>send\<close> is given: the object handed to \<^verbatim>\<open>JSON.stringify\<close>.
  \<open>Presence room ipHash\<close>, \<open>Typing room ipHash typing\<close> and
  \<open>Message room payload timestamp\<close> are the three events of server.js;
  \<open>Relayed room payload\<close> is the untyped event of the plain relay.
\<close>

datatype event =
    Presence jsval string
  | Typing jsval string bool
  | Message jsval jsval int
  | Relayed jsval jsval

text \<open>
  Calls submitted to the database: \<open>ProfileUpdate ipHash online lastSeen upsert\<close> is
  \<^verbatim>\<open>profiles.updateOne\<close>, \<open>MessageInsert room payload timestamp\<close> is
  \<^verbatim>\<open>messages.insertOne\<close>.
\<close>

datatype db_call =
    ProfileUpdate string bool int bool
  | MessageInsert jsval jsval int

datatype db_result = Resolved | Rejected

text \<open>
  The mutable state the handlers share. Each property of a \<^verbatim>\<open>ws\<close> object is a map from
  the connection's identity. \<open>clients\<close> is \<^verbatim>\<open>wss.clients\<close> in iteration (insertion)
  order; \<open>clientRoom\<close> and \<open>clientProfile\<close> are the two WeakMaps (\<open>clientProfile\<close>
  holds the \<^verbatim>\<open>ipHash\<close> of the stored object). \<open>db_ready\<close> says that \<^verbatim>\<open>init\<close> has
  assigned \<^verbatim>\<open>db\<close>. The remaining fields record what the code did to its collaborators:
  the database calls submitted, the lines given to \<^verbatim>\<open>console.error\<close>, the events
  handed to each connection's \<^verbatim>\<open>send\<close>, the calls of \<^verbatim>\<open>ping\<close> and of
  \<^verbatim>\<open>terminate\<close>. \<open>send_throws\<close> is the transport's side: whether \<^verbatim>\<open>send\<close> on that
  connection throws.
\<close>

record server =
  clients :: "cid list"
  readyState :: "cid \<Rightarrow> nat"
  isAlive :: "cid \<Rightarrow> bool"
  clientRoom :: "cid \<rightharpoonup> jsval"
  clientProfile :: "cid \<rightharpoonup> string"
  db_ready :: bool
  db_calls :: "db_call list"
  errlog :: "string list"
  sent :: "cid \<Rightarrow> event list"
  pings :: "cid \<Rightarrow> nat"
  terminated :: "cid \<Rightarrow> bool"
  send_throws :: "cid \<Rightarrow> bool"

text \<open>How a synchronous piece of code ends: it returns, or an exception escapes it.\<close>

datatype completion = Returned server | Threw server

fun state_of :: "completion \<Rightarrow> server" where
  "state_of (Returned st) = st"
| "state_of (Threw st) = st"

fun threw :: "completion \<Rightarrow> bool" where
  "threw (Returned st) = False"
| "threw (Threw st) = True"

text \<open>\<^verbatim>\<open>clientRoom.get(c)\<close>: \<^verbatim>\<open>undefined\<close> when the WeakMap has no entry.\<close>

definition room_of :: "server \<Rightarrow> cid \<Rightarrow> jsval" where
  "room_of st c = (case clientRoom st c of None \<Rightarrow> JUndefined | Some r \<Rightarrow> r)"

section \<open>The broadcaster\<close>

text \<open>\<^verbatim>\<open>c.send(msg)\<close>: the transport takes the event, or throws.\<close>

definition send :: "cid \<Rightarrow> event \<Rightarrow> server \<Rightarrow> completion" where
  "send c msg st =
     (if send_throws st c then Threw st
      else Returned (st\<lparr>sent := (sent st)(c := sent st c @ [msg])\<rparr>))"

text \<open>
  The body of \<^verbatim>\<open>wss.clients.forEach\<close> in \<^verbatim>\<open>broadcast\<close>, over the clients still to visit.
  There is no \<^verbatim>\<open>try\<close> around \<^verbatim>\<open>c.send\<close>: an exception leaves the loop.
\<close>

fun broadcast_each :: "jsval \<Rightarrow> event \<Rightarrow> cid list \<Rightarrow> server \<Rightarrow> completion" where
  "broadcast_each room msg [] st = Returned st"
| "broadcast_each room msg (c # cs) st =
     (if readyState st c \<noteq> 1 then broadcast_each room msg cs st
      else if strict_eq (room_of st c) room then
        (case send c msg st of
           Threw st' \<Rightarrow> Threw st'
         | Returned st' \<Rightarrow> broadcast_each room msg cs st')
      else broadcast_each room msg cs st)"

definition broadcast :: "jsval \<Rightarrow> event \<Rightarrow> server \<Rightarrow> completion" where
  "broadcast room msg st = broadcast_each room msg (clients st) st"

section \<open>The liveness sweep\<close>

text \<open>\<^verbatim>\<open>ws.terminate()\<close> and \<^verbatim>\<open>ws.ping(() => {})\<close>, recorded as calls on the transport.\<close>

definition terminate :: "cid \<Rightarrow> server \<Rightarrow> server" where
  "terminate ws st = st\<lparr>terminated := (terminated st)(ws := True)\<rparr>"

definition ping :: "cid \<Rightarrow> server \<Rightarrow> server" where
  "ping ws st = st\<lparr>pings := (pings st)(ws := pings st ws + 1)\<rparr>"

fun sweep_each :: "cid list \<Rightarrow> server \<Rightarrow> server" where
  "sweep_each [] st = st"
| "sweep_each (ws # rest) st =
     sweep_each rest
       (if \<not> isAlive st ws then terminate ws st
        else ping ws (st\<lparr>isAlive := (isAlive st)(ws := False)\<rparr>))"

text \<open>One tick of the \<^verbatim>\<open>setInterval\<close> callback.\<close>

definition sweep :: "server \<Rightarrow> server" where
  "sweep st = sweep_each (clients st) st"


section \<open>The connection handlers of server.js\<close>

text \<open>
  The synchronous start of the \<^verbatim>\<open>connection\<close> callback; \<open>ipHash\<close> is the value of
  \<^verbatim>\<open>hashIp(ip)\<close>, which the handlers registered here close over.
\<close>

definition on_connection :: "cid \<Rightarrow> string \<Rightarrow> server \<Rightarrow> server" where
  "on_connection ws ipHash st =
     st\<lparr>clientProfile := (clientProfile st)(ws \<mapsto> ipHash),
        isAlive := (isAlive st)(ws := True)\<rparr>"

text \<open>
  The handlers are \<^verbatim>\<open>async\<close>: each runs up to its \<^verbatim>\<open>await\<close> of a database call and
  is resumed when that call settles, other events running in between. A \<open>pending\<close>
  value is the rest of a handler after its \<^verbatim>\<open>await\<close>, with the variables it closes over.
\<close>

datatype pending =
    AfterJoin jsval string
  | AfterInsert jsval jsval int
  | AfterOffline jsval string

datatype task = Finished completion | Awaiting pending server

fun task_state :: "task \<Rightarrow> server" where
  "task_state (Finished c) = state_of c"
| "task_state (Awaiting p st) = st"

text \<open>
  The code after the \<^verbatim>\<open>try { await ... } catch\<close> of each handler, entered when the
  database call has settled. Only the \<^verbatim>\<open>message\<close> branch logs a failure.
\<close>

fun resume :: "pending \<Rightarrow> db_result \<Rightarrow> server \<Rightarrow> completion" where
  "resume (AfterJoin room ipHash) r st = broadcast room (Presence room ipHash) st"
| "resume (AfterInsert room payload timestamp) r st =
     broadcast room (Message room payload timestamp)
       (if r = Rejected then st\<lparr>errlog := errlog st @ [''db insert'']\<rparr> else st)"
| "resume (AfterOffline room ipHash) r st =
     (if truthy room then broadcast room (Presence room ipHash) st else Returned st)"

text \<open>
  \<^verbatim>\<open>try { await db.collection(..).op(..) } catch(e) {..}\<close>: with \<^verbatim>\<open>db\<close> assigned the call
  is submitted and the handler suspends; while \<^verbatim>\<open>db\<close> is still undefined
  \<^verbatim>\<open>db.collection\<close> throws inside the \<^verbatim>\<open>try\<close>, nothing is submitted, and the handler
  goes on at once through its \<^verbatim>\<open>catch\<close>.
\<close>

definition await_db :: "db_call \<Rightarrow> pending \<Rightarrow> server \<Rightarrow> task" where
  "await_db call p st =
     (if db_ready st then Awaiting p (st\<lparr>db_calls := db_calls st @ [call]\<rparr>)
      else Finished (resume p Rejected st))"

text \<open>
  \<^verbatim>\<open>ws.on('message', ..)\<close> of server.js. \<open>data\<close> is the outcome of
  \<^verbatim>\<open>JSON.parse(data.toString())\<close> (\<open>None\<close>: it threw), \<open>now\<close> the value of
  \<^verbatim>\<open>new Date()\<close>.
\<close>

definition on_message :: "cid \<Rightarrow> string \<Rightarrow> int \<Rightarrow> jsval option \<Rightarrow> server \<Rightarrow> task" where
  "on_message ws ipHash now data st =
     (case data of
        None \<Rightarrow> Finished (Returned st)
      | Some obj \<Rightarrow>
          if nullish obj then Finished (Threw st)
          else
            let type = (if truthy (get_prop obj ''type'') then get_prop obj ''type''
                        else JStr ''message'')
            in
              if strict_eq type (JStr ''join'') then
                (let room = get_prop obj ''room'';
                     st1 = st\<lparr>clientRoom := (clientRoom st)(ws \<mapsto> room)\<rparr>
                 in await_db (ProfileUpdate ipHash True now True) (AfterJoin room ipHash) st1)
              else if strict_eq type (JStr ''typing'') then
                (let room = get_prop obj ''room''
                 in Finished (broadcast room
                      (Typing room ipHash (truthy (get_prop obj ''typing''))) st))
              else if strict_eq type (JStr ''message'') then
                (let room = get_prop obj ''room'';
                     payload = get_prop obj ''payload'';
                     timestamp = now
                 in await_db (MessageInsert room payload timestamp)
                      (AfterInsert room payload timestamp) st)
              else Finished (Returned st))"


text \<open>
  A handler run to its end with no other event in between: it has finished already, or
  its database call settles with \<open>r\<close> and it is resumed in the state it suspended in.
\<close>

fun settle :: "db_result \<Rightarrow> task \<Rightarrow> completion" where
  "settle r (Finished c) = c"
| "settle r (Awaiting p st) = resume p r st"

section \<open>The plain relay\<close>

text \<open>
  \<^verbatim>\<open>ws.on('message', ..)\<close> of the relay without persistence. Its fan-out loop is, statement
  for statement, the loop of \<^verbatim>\<open>broadcast\<close> (\<^verbatim>\<open>WebSocket.OPEN\<close> is 1).
\<close>

definition relay_on_message :: "cid \<Rightarrow> jsval option \<Rightarrow> server \<Rightarrow> completion" where
  "relay_on_message ws data st =
     (case data of
        None \<Rightarrow> Returned st
      | Some obj \<Rightarrow>
          if \<not> truthy obj \<or> \<not> is_string (get_prop obj ''room'')
               \<or> \<not> is_string (get_prop obj ''payload'')
          then Returned st
          else
            let st1 = st\<lparr>clientRoom := (clientRoom st)(ws \<mapsto> get_prop obj ''room'')\<rparr>
            in broadcast (get_prop obj ''room'')
                 (Relayed (get_prop obj ''room'') (get_prop obj ''payload'')) st1)"

section \<open>Concrete states\<close>

text \<open>
  Three connections in room \<open>lobby\<close>, of which connection 2 is closed, and an open
  connection 3 in room \<open>den\<close>; the database is connected and nothing has happened yet.
\<close>

definition lobby :: server where
  "lobby = \<lparr>clients = [0, 1, 2, 3],
            readyState = (\<lambda>c. if c = 2 then 3 else 1),
            isAlive = (\<lambda>c. True),
            clientRoom = [0 \<mapsto> JStr ''lobby'', 1 \<mapsto> JStr ''lobby'',
                          2 \<mapsto> JStr ''lobby'', 3 \<mapsto> JStr ''den''],
            clientProfile = [0 \<mapsto> ''h0'', 1 \<mapsto> ''h1'', 2 \<mapsto> ''h2'', 3 \<mapsto> ''h3''],
            db_ready = True, db_calls = [], errlog = [],
            sent = (\<lambda>c. []), pings = (\<lambda>c. 0), terminated = (\<lambda>c. False),
            send_throws = (\<lambda>c. False)\<rparr>"

text \<open>The same, with a transport whose \<^verbatim>\<open>send\<close> throws on connection 0.\<close>

definition lobby_bad_peer :: server where
  "lobby_bad_peer = lobby\<lparr>send_throws := (\<lambda>c. c = 0)\<rparr>"

text \<open>Two open connections that have sent no \<^verbatim>\<open>join\<close>: the WeakMaps hold no room.\<close>

definition unjoined :: server where
  "unjoined = \<lparr>clients = [0, 1],
               readyState = (\<lambda>c. 1),
               isAlive = (\<lambda>c. True),
               clientRoom = Map.empty,
               clientProfile = [0 \<mapsto> ''h0'', 1 \<mapsto> ''h1''],
               db_ready = True, db_calls = [], errlog = [],
               sent = (\<lambda>c. []), pings = (\<lambda>c. 0), terminated = (\<lambda>c. False),
               send_throws = (\<lambda>c. False)\<rparr>"

text \<open>
  Parsed frames: a typed and an untyped message for \<open>lobby\<close>, a \<^verbatim>\<open>join\<close> of
  \<open>den\<close> and one of \<open>lobby\<close>, a typing notice, a frame of an unknown type, and a
  frame with no \<^verbatim>\<open>room\<close> and a number as \<^verbatim>\<open>payload\<close>.
\<close>

definition hi_frame :: jsval where
  "hi_frame = JObj 7 [(''type'', JStr ''message''), (''room'', JStr ''lobby''),
                      (''payload'', JStr ''hi'')]"

definition untyped_frame :: jsval where
  "untyped_frame = JObj 8 [(''room'', JStr ''lobby''), (''payload'', JStr ''hi'')]"

definition join_den_frame :: jsval where
  "join_den_frame = JObj 9 [(''type'', JStr ''join''), (''room'', JStr ''den'')]"



definition leave_frame :: jsval where
  "leave_frame = JObj 11 [(''type'', JStr ''leave''), (''room'', JStr ''lobby'')]"

definition roomless_frame :: jsval where
  "roomless_frame = JObj 12 [(''payload'', JNum 5)]"



section \<open>Properties of the broadcaster\<close>

text \<open>A connection that \<^verbatim>\<open>broadcast\<close> sends to: open, and registered to the room.\<close>

definition open_in_room :: "server \<Rightarrow> jsval \<Rightarrow> cid \<Rightarrow> bool" where
  "open_in_room st room c = (readyState st c = 1 \<and> strict_eq (room_of st c) room)"

lemma strict_eq_refl: "strict_eq a a"
  by (cases a) simp_all

lemma strict_eq_JStr: "strict_eq a (JStr s) = (a = JStr s)"
  by (cases a) simp_all

lemma open_in_room_sent_upd [simp]:
  "open_in_room (st\<lparr>sent := f\<rparr>) room c = open_in_room st room c"
  by (simp add: open_in_room_def room_of_def)

lemma open_in_room_errlog_upd [simp]:
  "open_in_room (st\<lparr>errlog := l\<rparr>) room c = open_in_room st room c"
  by (simp add: open_in_room_def room_of_def)

text \<open>The fan-out touches nothing but the record of sent events.\<close>

lemma broadcast_each_frame:
  "\<exists>f. state_of (broadcast_each room msg cs st) = st\<lparr>sent := f\<rparr>"
proof (induction cs arbitrary: st)
  case Nil
  have "st = st\<lparr>sent := sent st\<rparr>" by simp
  then show ?case by (metis broadcast_each.simps(1) state_of.simps(1))
next
  case (Cons c cs)
  show ?case
  proof (cases "open_in_room st room c")
    case False
    then show ?thesis using Cons.IH [of st] by (auto simp: open_in_room_def)
  next
    case True
    show ?thesis
    proof (cases "send_throws st c")
      case True
      have "st = st\<lparr>sent := sent st\<rparr>" by simp
      with True \<open>open_in_room st room c\<close> show ?thesis
        by (auto simp: open_in_room_def send_def intro: exI [of _ "sent st"])
    next
      case False
      let ?s = "st\<lparr>sent := (sent st)(c := sent st c @ [msg])\<rparr>"
      from Cons.IH [of ?s]
      obtain f where "state_of (broadcast_each room msg cs ?s) = ?s\<lparr>sent := f\<rparr>" ..
      with False \<open>open_in_room st room c\<close> show ?thesis
        by (auto simp: open_in_room_def send_def intro: exI [of _ f])
    qed
  qed
qed

lemma broadcast_frame:
  "\<exists>f. state_of (broadcast room msg st) = st\<lparr>sent := f\<rparr>"
  unfolding broadcast_def by (rule broadcast_each_frame)

lemma broadcast_registry [simp]:
  "clientRoom (state_of (broadcast room msg st)) = clientRoom st"
  "clientProfile (state_of (broadcast room msg st)) = clientProfile st"
  "clients (state_of (broadcast room msg st)) = clients st"
  using broadcast_frame [of room msg st] by auto

lemma broadcast_effects [simp]:
  "db_calls (state_of (broadcast room msg st)) = db_calls st"
  "errlog (state_of (broadcast room msg st)) = errlog st"
  "readyState (state_of (broadcast room msg st)) = readyState st"
  using broadcast_frame [of room msg st] by auto



text \<open>When no send throws, the loop reaches every client and returns.\<close>

lemma broadcast_each_no_throw:
  assumes "\<forall>c\<in>set cs. open_in_room st room c \<longrightarrow> \<not> send_throws st c" and "distinct cs"
  shows "broadcast_each room msg cs st =
         Returned (st\<lparr>sent := (\<lambda>c. if c \<in> set cs \<and> open_in_room st room c
                                    then sent st c @ [msg] else sent st c)\<rparr>)"
  using assms
proof (induction cs arbitrary: st)
  case Nil
  then show ?case by simp
next
  case (Cons c cs)
  show ?case
  proof (cases "open_in_room st room c")
    case False
    have "(\<lambda>x. if x \<in> set (c # cs) \<and> open_in_room st room x
               then sent st x @ [msg] else sent st x)
        = (\<lambda>x. if x \<in> set cs \<and> open_in_room st room x
               then sent st x @ [msg] else sent st x)"
      using False by auto
    moreover have "broadcast_each room msg (c # cs) st = broadcast_each room msg cs st"
      using False by (auto simp: open_in_room_def)
    ultimately show ?thesis using Cons.IH [of st] Cons.prems by simp
  next
    case True
    let ?s = "st\<lparr>sent := (sent st)(c := sent st c @ [msg])\<rparr>"
    have nt: "\<not> send_throws st c" using True Cons.prems by simp
    have step: "broadcast_each room msg (c # cs) st = broadcast_each room msg cs ?s"
      using True nt by (simp add: open_in_room_def send_def)
    have ih: "broadcast_each room msg cs ?s =
         Returned (?s\<lparr>sent := (\<lambda>x. if x \<in> set cs \<and> open_in_room ?s room x
                                    then sent ?s x @ [msg] else sent ?s x)\<rparr>)"
      using Cons.prems by (intro Cons.IH) auto
    have "(\<lambda>x. if x \<in> set cs \<and> open_in_room ?s room x
               then sent ?s x @ [msg] else sent ?s x)
        = (\<lambda>x. if x \<in> set (c # cs) \<and> open_in_room st room x
               then sent st x @ [msg] else sent st x)"
      using True Cons.prems by auto
    then show ?thesis using step ih by simp
  qed
qed

lemma broadcast_no_throw:
  assumes "distinct (clients st)"
    and "\<forall>c\<in>set (clients st). open_in_room st room c \<longrightarrow> \<not> send_throws st c"
  shows "broadcast room msg st =
         Returned (st\<lparr>sent := (\<lambda>c. if c \<in> set (clients st) \<and> open_in_room st room c
                                    then sent st c @ [msg] else sent st c)\<rparr>)"
  unfolding broadcast_def using assms by (intro broadcast_each_no_throw) auto

text \<open>The loop over a list in two parts: an exception in the first part ends it.\<close>

lemma broadcast_each_append:
  "broadcast_each room msg (xs @ ys) st =
     (case broadcast_each room msg xs st of
        Threw st' \<Rightarrow> Threw st'
      | Returned st' \<Rightarrow> broadcast_each room msg ys st')"
  by (induction xs arbitrary: st) (auto split: completion.splits)

lemma broadcast_each_throw:
  assumes "distinct (pre @ t # post)"
    and "\<forall>c\<in>set pre. open_in_room st room c \<longrightarrow> \<not> send_throws st c"
    and "open_in_room st room t" and "send_throws st t"
  shows "broadcast_each room msg (pre @ t # post) st =
         Threw (st\<lparr>sent := (\<lambda>c. if c \<in> set pre \<and> open_in_room st room c
                                 then sent st c @ [msg] else sent st c)\<rparr>)"
proof -
  have "distinct pre" using assms(1) by simp
  with assms(2) have "broadcast_each room msg pre st =
         Returned (st\<lparr>sent := (\<lambda>c. if c \<in> set pre \<and> open_in_room st room c
                                    then sent st c @ [msg] else sent st c)\<rparr>)"
    by (intro broadcast_each_no_throw) auto
  then show ?thesis using assms(3,4)
    by (simp add: broadcast_each_append open_in_room_def room_of_def send_def)
qed

section \<open>Fan-out and failing sends\<close>

text \<open>
  C2, as stated: a send that throws for one peer is caught and every other open
  connection of the room still receives the message. In \<open>lobby_bad_peer\<close> the send to
  connection 0 throws; connection 1 is open and registered to \<open>lobby\<close>, yet the broadcast
  ends with the exception and connection 1 has been handed nothing.
\<close>

theorem broadcast_throwing_send_aborts:
  "readyState lobby_bad_peer 1 = 1
   \<and> room_of lobby_bad_peer 1 = JStr ''lobby''
   \<and> threw (broadcast (JStr ''lobby'') (Message (JStr ''lobby'') (JStr ''hi'') 1000)
              lobby_bad_peer)
   \<and> sent (state_of (broadcast (JStr ''lobby'') (Message (JStr ''lobby'') (JStr ''hi'') 1000)
                       lobby_bad_peer)) 1 = []"
  by (simp add: lobby_bad_peer_def lobby_def broadcast_def room_of_def send_def)

text \<open>
  C2, amended: \<^verbatim>\<open>broadcast\<close> skips every connection that is not open, so a closed peer
  never stops the fan-out: when no send to an open connection of the room throws, the
  call returns and exactly the open connections registered to the room have been handed
  the message. There is no catch around \<^verbatim>\<open>send\<close>: at the first send that throws the
  exception leaves \<^verbatim>\<open>broadcast\<close>, the connections visited before it have the message
  and those after it do not.
\<close>

theorem broadcast_fanout:
  assumes "distinct (clients st)"
  shows "((\<forall>c\<in>set (clients st). open_in_room st room c \<longrightarrow> \<not> send_throws st c) \<longrightarrow>
            broadcast room msg st =
            Returned (st\<lparr>sent := (\<lambda>c. if c \<in> set (clients st) \<and> open_in_room st room c
                                       then sent st c @ [msg] else sent st c)\<rparr>))
       \<and> (clients st = pre @ t # post
            \<and> (\<forall>c\<in>set pre. open_in_room st room c \<longrightarrow> \<not> send_throws st c)
            \<and> open_in_room st room t \<and> send_throws st t \<longrightarrow>
            broadcast room msg st =
            Threw (st\<lparr>sent := (\<lambda>c. if c \<in> set pre \<and> open_in_room st room c
                                    then sent st c @ [msg] else sent st c)\<rparr>))"
proof (intro conjI impI)
  assume "\<forall>c\<in>set (clients st). open_in_room st room c \<longrightarrow> \<not> send_throws st c"
  with assms show "broadcast room msg st =
      Returned (st\<lparr>sent := (\<lambda>c. if c \<in> set (clients st) \<and> open_in_room st room c
                                 then sent st c @ [msg] else sent st c)\<rparr>)"
    by (rule broadcast_no_throw)
next
  assume h: "clients st = pre @ t # post
            \<and> (\<forall>c\<in>set pre. open_in_room st room c \<longrightarrow> \<not> send_throws st c)
            \<and> open_in_room st room t \<and> send_throws st t"
  then have "distinct (pre @ t # post)" using assms by simp
  then have "broadcast_each room msg (pre @ t # post) st =
      Threw (st\<lparr>sent := (\<lambda>c. if c \<in> set pre \<and> open_in_room st room c
                              then sent st c @ [msg] else sent st c)\<rparr>)"
    using h by (intro broadcast_each_throw) auto
  then show "broadcast room msg st =
      Threw (st\<lparr>sent := (\<lambda>c. if c \<in> set pre \<and> open_in_room st room c
                              then sent st c @ [msg] else sent st c)\<rparr>)"
    using h by (simp add: broadcast_def)
qed

theorem broadcast_fanout_witness:
  "broadcast (JStr ''lobby'') (Presence (JStr ''lobby'') ''h0'') lobby =
     Returned (lobby\<lparr>sent := (\<lambda>c. if c = 0 \<or> c = 1
                                   then [Presence (JStr ''lobby'') ''h0''] else [])\<rparr>)
   \<and> broadcast (JStr ''lobby'') (Presence (JStr ''lobby'') ''h0'') lobby_bad_peer =
     Threw lobby_bad_peer"
proof -
  let ?m = "Presence (JStr ''lobby'') ''h0''"
  have a: "(\<lambda>c. if c \<in> set (clients lobby) \<and> open_in_room lobby (JStr ''lobby'') c
                then sent lobby c @ [?m] else sent lobby c)
         = (\<lambda>c. if c = 0 \<or> c = 1 then [?m] else [])"
    by (auto simp: lobby_def open_in_room_def room_of_def)
  have 1: "broadcast (JStr ''lobby'') ?m lobby =
     Returned (lobby\<lparr>sent := (\<lambda>c. if c = 0 \<or> c = 1 then [?m] else [])\<rparr>)"
    using broadcast_fanout [of lobby "JStr ''lobby''" ?m "[]" 0 "[]"] a
    by (simp add: lobby_def open_in_room_def room_of_def)
  have 2: "broadcast (JStr ''lobby'') ?m lobby_bad_peer = Threw lobby_bad_peer"
    using broadcast_fanout [of lobby_bad_peer "JStr ''lobby''" ?m "[]" 0 "[1, 2, 3]"]
    by (simp add: lobby_bad_peer_def lobby_def open_in_room_def room_of_def)
  show ?thesis using 1 2 by simp
qed

section \<open>The message branch and the database\<close>

lemma on_message_message:
  assumes "\<not> nullish obj"
    and "\<not> truthy (get_prop obj ''type'') \<or> get_prop obj ''type'' = JStr ''message''"
  shows "on_message ws h now (Some obj) st =
         await_db (MessageInsert (get_prop obj ''room'') (get_prop obj ''payload'') now)
           (AfterInsert (get_prop obj ''room'') (get_prop obj ''payload'') now) st"
  using assms by (auto simp: on_message_def Let_def strict_eq_JStr)

lemma on_message_join:
  assumes "\<not> nullish obj" and "get_prop obj ''type'' = JStr ''join''"
  shows "on_message ws h now (Some obj) st =
         await_db (ProfileUpdate h True now True) (AfterJoin (get_prop obj ''room'') h)
           (st\<lparr>clientRoom := (clientRoom st)(ws \<mapsto> get_prop obj ''room'')\<rparr>)"
  using assms by (simp add: on_message_def Let_def strict_eq_JStr)


lemma open_in_room_db_calls_upd [simp]:
  "open_in_room (st\<lparr>db_calls := l\<rparr>) room c = open_in_room st room c"
  by (simp add: open_in_room_def room_of_def)

lemma open_in_room_registered:
  "open_in_room (st\<lparr>clientRoom := (clientRoom st)(ws \<mapsto> room)\<rparr>) room c =
     (readyState st c = 1 \<and> (c = ws \<or> strict_eq (room_of st c) room))"
  by (auto simp: open_in_room_def room_of_def strict_eq_refl)


lemma resume_registry [simp]:
  "clientRoom (state_of (resume p r st)) = clientRoom st"
  "clientProfile (state_of (resume p r st)) = clientProfile st"
  "clients (state_of (resume p r st)) = clients st"
  "readyState (state_of (resume p r st)) = readyState st"
  by (cases p; simp)+











section \<open>When the broadcast happens\<close>

text \<open>
  C4, as stated: the router broadcasts at once and does not wait for the database. In
  \<open>lobby\<close> connection 0 sends a message for its room. The handler submits the insert
  and stops at its \<^verbatim>\<open>await\<close>: connection 1, open and in the room, has been handed
  nothing. It is handed the message only when the handler is resumed after the insert
  has settled.
\<close>

theorem message_broadcast_waits_for_insert:
  "on_message 0 ''h0'' 1000 (Some hi_frame) lobby =
     Awaiting (AfterInsert (JStr ''lobby'') (JStr ''hi'') 1000)
       (lobby\<lparr>db_calls := [MessageInsert (JStr ''lobby'') (JStr ''hi'') 1000]\<rparr>)
   \<and> sent (task_state (on_message 0 ''h0'' 1000 (Some hi_frame) lobby)) 1 = []
   \<and> sent (state_of (resume (AfterInsert (JStr ''lobby'') (JStr ''hi'') 1000) Resolved
              (task_state (on_message 0 ''h0'' 1000 (Some hi_frame) lobby)))) 1 =
     [Message (JStr ''lobby'') (JStr ''hi'') 1000]"
  by (simp add: on_message_def hi_frame_def await_db_def lobby_def broadcast_def
      room_of_def send_def Let_def)

text \<open>
  C4, amended: for a \<^verbatim>\<open>join\<close> or \<^verbatim>\<open>message\<close> frame arriving while the database is
  connected, the synchronous part of the handler records the room (for \<^verbatim>\<open>join\<close>),
  submits the database call and awaits it, handing no event to any connection; when it
  is resumed after the call has settled, whether the call succeeded or failed, the
  handler broadcasts, a failed insert being logged first.
\<close>

theorem broadcast_follows_awaited_db_call:
  assumes "\<not> nullish obj" and "db_ready st"
  shows "(get_prop obj ''type'' = JStr ''join'' \<longrightarrow>
            on_message ws h now (Some obj) st =
            Awaiting (AfterJoin (get_prop obj ''room'') h)
              (st\<lparr>clientRoom := (clientRoom st)(ws \<mapsto> get_prop obj ''room''),
                  db_calls := db_calls st @ [ProfileUpdate h True now True]\<rparr>))
       \<and> (\<not> truthy (get_prop obj ''type'') \<or> get_prop obj ''type'' = JStr ''message'' \<longrightarrow>
            on_message ws h now (Some obj) st =
            Awaiting (AfterInsert (get_prop obj ''room'') (get_prop obj ''payload'') now)
              (st\<lparr>db_calls := db_calls st @
                 [MessageInsert (get_prop obj ''room'') (get_prop obj ''payload'') now]\<rparr>))
       \<and> (get_prop obj ''type'' = JStr ''join'' \<or> \<not> truthy (get_prop obj ''type'')
            \<or> get_prop obj ''type'' = JStr ''message'' \<longrightarrow>
            sent (task_state (on_message ws h now (Some obj) st)) = sent st)
       \<and> resume (AfterJoin room h) r s = broadcast room (Presence room h) s
       \<and> resume (AfterInsert room payload now) Resolved s =
           broadcast room (Message room payload now) s
       \<and> resume (AfterInsert room payload now) Rejected s =
           broadcast room (Message room payload now)
             (s\<lparr>errlog := errlog s @ [''db insert'']\<rparr>)"
proof -
  have j: "get_prop obj ''type'' = JStr ''join'' \<Longrightarrow>
      on_message ws h now (Some obj) st =
      Awaiting (AfterJoin (get_prop obj ''room'') h)
        (st\<lparr>clientRoom := (clientRoom st)(ws \<mapsto> get_prop obj ''room''),
            db_calls := db_calls st @ [ProfileUpdate h True now True]\<rparr>)"
    using assms by (simp add: on_message_join await_db_def)
  have m: "\<not> truthy (get_prop obj ''type'') \<or> get_prop obj ''type'' = JStr ''message'' \<Longrightarrow>
      on_message ws h now (Some obj) st =
      Awaiting (AfterInsert (get_prop obj ''room'') (get_prop obj ''payload'') now)
        (st\<lparr>db_calls := db_calls st @
           [MessageInsert (get_prop obj ''room'') (get_prop obj ''payload'') now]\<rparr>)"
    using assms by (simp add: on_message_message await_db_def)
  have q: "get_prop obj ''type'' = JStr ''join'' \<or> \<not> truthy (get_prop obj ''type'')
        \<or> get_prop obj ''type'' = JStr ''message'' \<Longrightarrow>
      sent (task_state (on_message ws h now (Some obj) st)) = sent st"
    using j m by auto
  show ?thesis using j m q by simp
qed

theorem broadcast_follows_awaited_db_call_witness:
  "on_message 3 ''h3'' 1000 (Some join_den_frame) lobby =
     Awaiting (AfterJoin (JStr ''den'') ''h3'')
       (lobby\<lparr>clientRoom := (clientRoom lobby)(3 \<mapsto> JStr ''den''),
              db_calls := [ProfileUpdate ''h3'' True 1000 True]\<rparr>)
   \<and> on_message 0 ''h0'' 1000 (Some untyped_frame) lobby =
     Awaiting (AfterInsert (JStr ''lobby'') (JStr ''hi'') 1000)
       (lobby\<lparr>db_calls := [MessageInsert (JStr ''lobby'') (JStr ''hi'') 1000]\<rparr>)
   \<and> sent (task_state (on_message 0 ''h0'' 1000 (Some hi_frame) lobby)) = sent lobby"
proof -
  have j: "\<not> nullish join_den_frame" "get_prop join_den_frame ''type'' = JStr ''join''"
    "get_prop join_den_frame ''room'' = JStr ''den''"
    by (simp_all add: join_den_frame_def)
  have u: "\<not> nullish untyped_frame" "\<not> truthy (get_prop untyped_frame ''type'')"
    "get_prop untyped_frame ''room'' = JStr ''lobby''"
    "get_prop untyped_frame ''payload'' = JStr ''hi''"
    by (simp_all add: untyped_frame_def)
  have t: "\<not> nullish hi_frame" "get_prop hi_frame ''type'' = JStr ''message''"
    by (simp_all add: hi_frame_def)
  have l: "db_ready lobby" "db_calls lobby = []" by (simp_all add: lobby_def)
  have 1: "on_message 3 ''h3'' 1000 (Some join_den_frame) lobby =
     Awaiting (AfterJoin (JStr ''den'') ''h3'')
       (lobby\<lparr>clientRoom := (clientRoom lobby)(3 \<mapsto> JStr ''den''),
              db_calls := [ProfileUpdate ''h3'' True 1000 True]\<rparr>)"
    using broadcast_follows_awaited_db_call [OF j(1) l(1), of 3 "''h3''" 1000] j(2,3) l(2)
    by simp
  have 2: "on_message 0 ''h0'' 1000 (Some untyped_frame) lobby =
     Awaiting (AfterInsert (JStr ''lobby'') (JStr ''hi'') 1000)
       (lobby\<lparr>db_calls := [MessageInsert (JStr ''lobby'') (JStr ''hi'') 1000]\<rparr>)"
    using broadcast_follows_awaited_db_call [OF u(1) l(1), of 0 "''h0''" 1000] u(2,3,4) l(2)
    by simp
  have 3: "sent (task_state (on_message 0 ''h0'' 1000 (Some hi_frame) lobby)) = sent lobby"
    using broadcast_follows_awaited_db_call [OF t(1) l(1), of 0 "''h0''" 1000] t(2)
    by simp
  show ?thesis using 1 2 3 by simp
qed

section \<open>Who receives a message\<close>




section \<open>The sender\<close>




section \<open>Joining another room\<close>





section \<open>Frames of an unknown type\<close>

text \<open>
  C10, as stated: a frame that parses as JSON and has no \<^verbatim>\<open>type\<close> is treated as a
  message. The frame \<^verbatim>\<open>null\<close> parses and has no \<^verbatim>\<open>type\<close>, but reading
  \<^verbatim>\<open>obj.type\<close> throws: the handler ends with the exception, and no insert is submitted
  as the \<open>message\<close> branch would.
\<close>

theorem null_frame_not_a_message:
  "on_message 0 ''h0'' 1000 (Some JNull) lobby = Finished (Threw lobby)
   \<and> on_message 0 ''h0'' 1000 (Some JNull) lobby \<noteq>
     await_db (MessageInsert (get_prop JNull ''room'') (get_prop JNull ''payload'') 1000)
       (AfterInsert (get_prop JNull ''room'') (get_prop JNull ''payload'') 1000) lobby"
  by (simp add: on_message_def await_db_def lobby_def)

text \<open>
  C10, amended: take a frame that parses to a value other than \<^verbatim>\<open>null\<close>. If its
  \<^verbatim>\<open>type\<close> is truthy and is none of \<open>join\<close>, \<open>typing\<close> and \<open>message\<close>, it falls
  through every branch: the handler returns with the state as it was, so nothing is
  registered, sent or submitted to the database. If its \<^verbatim>\<open>type\<close> is absent or falsy
  it takes the \<open>message\<close> branch: it is handled as the same object with \<^verbatim>\<open>type\<close>
  set to \<open>message\<close> would be.
\<close>

theorem unknown_type_ignored:
  assumes "\<not> nullish obj"
  shows "(truthy (get_prop obj ''type'') \<and> get_prop obj ''type'' \<noteq> JStr ''join''
            \<and> get_prop obj ''type'' \<noteq> JStr ''typing''
            \<and> get_prop obj ''type'' \<noteq> JStr ''message'' \<longrightarrow>
            on_message ws h now (Some obj) st = Finished (Returned st))
       \<and> (\<not> truthy (get_prop obj ''type'') \<longrightarrow>
            on_message ws h now (Some obj) st =
            await_db (MessageInsert (get_prop obj ''room'') (get_prop obj ''payload'') now)
              (AfterInsert (get_prop obj ''room'') (get_prop obj ''payload'') now) st)
       \<and> (\<not> truthy (get_prop (JObj i kvs) ''type'') \<longrightarrow>
            on_message ws h now (Some (JObj i kvs)) st =
            on_message ws h now (Some (JObj j ((''type'', JStr ''message'') # kvs))) st)"
proof (intro conjI impI)
  assume "truthy (get_prop obj ''type'') \<and> get_prop obj ''type'' \<noteq> JStr ''join''
      \<and> get_prop obj ''type'' \<noteq> JStr ''typing'' \<and> get_prop obj ''type'' \<noteq> JStr ''message''"
  then show "on_message ws h now (Some obj) st = Finished (Returned st)"
    using assms by (simp add: on_message_def Let_def strict_eq_JStr)
next
  assume "\<not> truthy (get_prop obj ''type'')"
  then show "on_message ws h now (Some obj) st =
      await_db (MessageInsert (get_prop obj ''room'') (get_prop obj ''payload'') now)
        (AfterInsert (get_prop obj ''room'') (get_prop obj ''payload'') now) st"
    using assms by (simp add: on_message_message)
next
  assume f: "\<not> truthy (get_prop (JObj i kvs) ''type'')"
  have "on_message ws h now (Some (JObj i kvs)) st =
      await_db (MessageInsert (get_prop (JObj i kvs) ''room'')
                  (get_prop (JObj i kvs) ''payload'') now)
        (AfterInsert (get_prop (JObj i kvs) ''room'') (get_prop (JObj i kvs) ''payload'') now) st"
    using f by (simp add: on_message_message)
  moreover have "on_message ws h now (Some (JObj j ((''type'', JStr ''message'') # kvs))) st =
      await_db (MessageInsert (get_prop (JObj i kvs) ''room'')
                  (get_prop (JObj i kvs) ''payload'') now)
        (AfterInsert (get_prop (JObj i kvs) ''room'') (get_prop (JObj i kvs) ''payload'') now) st"
    by (simp add: on_message_message)
  ultimately show "on_message ws h now (Some (JObj i kvs)) st =
      on_message ws h now (Some (JObj j ((''type'', JStr ''message'') # kvs))) st"
    by simp
qed

theorem unknown_type_ignored_witness:
  "on_message 0 ''h0'' 1000 (Some leave_frame) lobby = Finished (Returned lobby)
   \<and> on_message 0 ''h0'' 1000 (Some untyped_frame) lobby =
     on_message 0 ''h0'' 1000 (Some hi_frame) lobby
   \<and> on_message 0 ''h0'' 1000 (Some (JNum 5)) lobby =
     Awaiting (AfterInsert JUndefined JUndefined 1000)
       (lobby\<lparr>db_calls := [MessageInsert JUndefined JUndefined 1000]\<rparr>)"
proof -
  have v: "\<not> nullish leave_frame" "truthy (get_prop leave_frame ''type'')"
    "get_prop leave_frame ''type'' \<noteq> JStr ''join''"
    "get_prop leave_frame ''type'' \<noteq> JStr ''typing''"
    "get_prop leave_frame ''type'' \<noteq> JStr ''message''"
    by (simp_all add: leave_frame_def)
  have u: "\<not> nullish untyped_frame"
    "untyped_frame = JObj 8 [(''room'', JStr ''lobby''), (''payload'', JStr ''hi'')]"
    "\<not> truthy (get_prop (JObj 8 [(''room'', JStr ''lobby''), (''payload'', JStr ''hi'')]) ''type'')"
    "hi_frame = JObj 7 ((''type'', JStr ''message'') #
        [(''room'', JStr ''lobby''), (''payload'', JStr ''hi'')])"
    by (simp_all add: untyped_frame_def hi_frame_def)
  have n: "\<not> nullish (JNum 5)" "\<not> truthy (get_prop (JNum 5) ''type'')"
    "get_prop (JNum 5) ''room'' = JUndefined" "get_prop (JNum 5) ''payload'' = JUndefined"
    by simp_all
  have 1: "on_message 0 ''h0'' 1000 (Some leave_frame) lobby = Finished (Returned lobby)"
    using unknown_type_ignored [OF v(1), of 0 "''h0''" 1000 lobby] v(2-5) by simp
  have 2: "on_message 0 ''h0'' 1000 (Some untyped_frame) lobby =
      on_message 0 ''h0'' 1000 (Some hi_frame) lobby"
    unfolding u(2,4)
    using unknown_type_ignored [OF u(1), of 0 "''h0''" 1000 lobby 8
        "[(''room'', JStr ''lobby''), (''payload'', JStr ''hi'')]" 7,
        THEN conjunct2, THEN conjunct2] u(3)
    by (rule mp)
  have 3: "on_message 0 ''h0'' 1000 (Some (JNum 5)) lobby =
      Awaiting (AfterInsert JUndefined JUndefined 1000)
        (lobby\<lparr>db_calls := [MessageInsert JUndefined JUndefined 1000]\<rparr>)"
    using unknown_type_ignored [OF n(1), of 0 "''h0''" 1000 lobby] n(2-4)
    by (simp add: await_db_def lobby_def)
  show ?thesis using 1 2 3 by simp
qed

section \<open>Properties of the liveness sweep\<close>

lemma sweep_each_frame:
  "\<exists>a p t. sweep_each cs st = st\<lparr>isAlive := a, pings := p, terminated := t\<rparr>"
proof (induction cs arbitrary: st)
  case Nil
  have "st = st\<lparr>isAlive := isAlive st, pings := pings st, terminated := terminated st\<rparr>"
    by simp
  then show ?case by (metis sweep_each.simps(1))
next
  case (Cons c cs)
  let ?s = "if \<not> isAlive st c then terminate c st
            else ping c (st\<lparr>isAlive := (isAlive st)(c := False)\<rparr>)"
  from Cons.IH [of ?s] obtain a p t
    where "sweep_each cs ?s = ?s\<lparr>isAlive := a, pings := p, terminated := t\<rparr>" by blast
  then have "sweep_each (c # cs) st = st\<lparr>isAlive := a, pings := p, terminated := t\<rparr>"
    by (simp add: terminate_def ping_def split: if_splits)
  then show ?case by blast
qed

lemma sweep_registry [simp]:
  "clientRoom (sweep st) = clientRoom st"
  "clientProfile (sweep st) = clientProfile st"
  "clients (sweep st) = clients st"
  "sent (sweep st) = sent st"
  "readyState (sweep st) = readyState st"
  using sweep_each_frame [of "clients st" st] unfolding sweep_def by auto











section \<open>Closing a connection\<close>




section \<open>Malformed frames\<close>

lemma unparsable_frame_dropped:
  "on_message ws h now None st = Finished (Returned st)"
  "relay_on_message ws None st = Returned st"
  by (simp_all add: on_message_def relay_on_message_def)

lemma relay_drops_malformed:
  assumes "\<not> truthy obj \<or> \<not> is_string (get_prop obj ''room'')
           \<or> \<not> is_string (get_prop obj ''payload'')"
  shows "relay_on_message ws (Some obj) st = Returned st"
  using assms by (auto simp: relay_on_message_def)

lemma relay_drops_roomless_frame:
  "relay_on_message 0 (Some roomless_frame) unjoined = Returned unjoined"
  by (simp add: relay_on_message_def roomless_frame_def)

text \<open>
  C1 at a frame with no \<^verbatim>\<open>room\<close> and a number as \<^verbatim>\<open>payload\<close>, sent by connection 0
  while nobody has joined a room. The handler of server.js takes it for a message: it
  submits an insert with an undefined room, and on resuming hands the frame to
  connection 1, whose room is undefined as well. The plain relay drops the same frame
  (\<open>relay_drops_roomless_frame\<close>).
\<close>

theorem roomless_frame_stored_and_broadcast:
  "on_message 0 ''h0'' 1000 (Some roomless_frame) unjoined =
     Awaiting (AfterInsert JUndefined (JNum 5) 1000)
       (unjoined\<lparr>db_calls := [MessageInsert JUndefined (JNum 5) 1000]\<rparr>)
   \<and> sent (state_of (settle Resolved
        (on_message 0 ''h0'' 1000 (Some roomless_frame) unjoined))) 1 =
     [Message JUndefined (JNum 5) 1000]"
  by (simp add: on_message_def roomless_frame_def await_db_def Let_def
      unjoined_def room_of_def broadcast_def send_def)

end
